theory Spec2Isabelle
  imports Complex_Main
begin

text \<open>
  A shallow embedding of the service layer of the CodeSprouts mobile application:
  \<^verbatim>\<open>DomainsService\<close> (domain-label validation, the registrar directory and its
  pagination, WHOIS lookups), \<^verbatim>\<open>LessonsService\<close> (lessons, lesson progress and user
  statistics) and \<^verbatim>\<open>AuthService\<close> (sign-in, sign-up, profiles), followed by the
  properties of these operations.

  JavaScript numbers are modelled by \<^typ>\<open>int\<close> and \<^typ>\<open>nat\<close> where the code counts and
  indexes and by \<^typ>\<open>real\<close> where it holds a percentage; \<^verbatim>\<open>NaN\<close> and the infinities are
  not part of the model. Strings are lists of 8-bit characters (code units below 256).
  A property that is optional or may be \<^verbatim>\<open>null\<close> is an \<^typ>\<open>'a option\<close>, with \<open>None\<close> for
  both \<^verbatim>\<open>null\<close> and \<^verbatim>\<open>undefined\<close>.

  An asynchronous operation is a function from the state of the outside world (the hosted
  store, the network) to a result and a new state; the result is \<open>Inl\<close> of the thrown
  value when the operation throws (its promise rejects) and \<open>Inr\<close> of the returned value
  otherwise.
\<close>

section \<open>JavaScript strings\<close>

text \<open>\<^verbatim>\<open>charCodeAt\<close>: the code unit of a character.\<close>

definition charCode :: "char \<Rightarrow> nat" where
  "charCode c = of_char c"

text \<open>
  \<^verbatim>\<open>toLowerCase\<close> on code units below 256: the letters \<open>A\<close> to \<open>Z\<close> and the accented
  capitals \<open>0xC0\<close> to \<open>0xDE\<close> (without the multiplication sign \<open>0xD7\<close>) move up by 32.
  \<^verbatim>\<open>trim\<close> removes white space and line terminators from both ends; below 256 these are
  the code units 9 to 13, 32 and 160.
\<close>

definition toLowerChar :: "char \<Rightarrow> char" where
  "toLowerChar c =
     (if (65 \<le> charCode c \<and> charCode c \<le> 90) \<or> (192 \<le> charCode c \<and> charCode c \<le> 222 \<and> charCode c \<noteq> 215)
      then char_of (charCode c + 32) else c)"

definition toLowerCase :: "string \<Rightarrow> string" where
  "toLowerCase s = map toLowerChar s"

definition isWhiteSpace :: "char \<Rightarrow> bool" where
  "isWhiteSpace c = (charCode c \<in> {9, 10, 11, 12, 13, 32, 160})"

definition trim :: "string \<Rightarrow> string" where
  "trim s = rev (dropWhile isWhiteSpace (rev (dropWhile isWhiteSpace s)))"

definition startsWith :: "string \<Rightarrow> string \<Rightarrow> bool" where
  "startsWith s p = (take (length p) s = p)"

definition endsWith :: "string \<Rightarrow> string \<Rightarrow> bool" where
  "endsWith s p = (length p \<le> length s \<and> drop (length s - length p) s = p)"

section \<open>Regular expressions\<close>

text \<open>
  The fragment of JavaScript regular expressions that the code uses: character classes
  given by ranges, sequencing, alternation and repetition. \<open>regex_test\<close> is
  \<^verbatim>\<open>RegExp.prototype.test\<close> for a pattern anchored by \<^verbatim>\<open>^\<close> and \<^verbatim>\<open>$\<close> (without the
  \<^verbatim>\<open>m\<close> flag): the whole input has to match. It is computed with derivatives.
\<close>

type_synonym char_class = "(char \<times> char) list"

definition in_class :: "char_class \<Rightarrow> char \<Rightarrow> bool" where
  "in_class cls c = list_ex (\<lambda>(lo, hi). charCode lo \<le> charCode c \<and> charCode c \<le> charCode hi) cls"

datatype regex =
    Nothing
  | Eps
  | Class char_class
  | Seq regex regex
  | Alt regex regex
  | Star regex

definition Opt :: "regex \<Rightarrow> regex" where
  "Opt r = Alt r Eps"

fun nullable :: "regex \<Rightarrow> bool" where
  "nullable Nothing = False"
| "nullable Eps = True"
| "nullable (Class cls) = False"
| "nullable (Seq r s) = (nullable r \<and> nullable s)"
| "nullable (Alt r s) = (nullable r \<or> nullable s)"
| "nullable (Star r) = True"

fun deriv :: "char \<Rightarrow> regex \<Rightarrow> regex" where
  "deriv c Nothing = Nothing"
| "deriv c Eps = Nothing"
| "deriv c (Class cls) = (if in_class cls c then Eps else Nothing)"
| "deriv c (Seq r s) =
     (if nullable r then Alt (Seq (deriv c r) s) (deriv c s) else Seq (deriv c r) s)"
| "deriv c (Alt r s) = Alt (deriv c r) (deriv c s)"
| "deriv c (Star r) = Seq (deriv c r) (Star r)"

fun regex_test :: "regex \<Rightarrow> string \<Rightarrow> bool" where
  "regex_test r [] = nullable r"
| "regex_test r (c # cs) = regex_test (deriv c r) cs"

definition alnum :: char_class where
  "alnum = [(CHR ''a'', CHR ''z''), (CHR ''0'', CHR ''9'')]"

definition alnum_hyphen :: char_class where
  "alnum_hyphen = [(CHR ''a'', CHR ''z''), (CHR ''0'', CHR ''9''), (CHR ''-'', CHR ''-'')]"

definition domainRegex :: regex where
  "domainRegex = Seq (Class alnum) (Opt (Seq (Star (Class alnum_hyphen)) (Class alnum)))"

text \<open>The language of a regular expression, used to reason about \<open>regex_test\<close>.\<close>

definition conc :: "string set \<Rightarrow> string set \<Rightarrow> string set" where
  "conc A B = {u @ v | u v. u \<in> A \<and> v \<in> B}"

inductive_set star :: "string set \<Rightarrow> string set" for A :: "string set" where
  star_empty: "[] \<in> star A"
| star_step: "u \<in> A \<Longrightarrow> v \<in> star A \<Longrightarrow> u @ v \<in> star A"

fun lang :: "regex \<Rightarrow> string set" where
  "lang Nothing = {}"
| "lang Eps = {[]}"
| "lang (Class cls) = {[c] | c. in_class cls c}"
| "lang (Seq r s) = conc (lang r) (lang s)"
| "lang (Alt r s) = lang r \<union> lang s"
| "lang (Star r) = star (lang r)"

section \<open>DomainsService: validation of a domain label\<close>

text \<open>The result object \<^verbatim>\<open>{ isValid: boolean; error?: string }\<close>; \<open>verror\<close> is its
  \<^verbatim>\<open>error\<close> field.\<close>

record validation =
  isValid :: bool
  verror :: "string option"

definition validateDomainName :: "string \<Rightarrow> validation" where
  "validateDomainName domain =
     (let cleanDomain = trim (toLowerCase domain) in
      if cleanDomain = [] then
        \<lparr>isValid = False, verror = Some ''Domain name cannot be empty''\<rparr>
      else if length cleanDomain < 1 then
        \<lparr>isValid = False, verror = Some ''Domain name is too short''\<rparr>
      else if length cleanDomain > 63 then
        \<lparr>isValid = False, verror = Some ''Domain name is too long''\<rparr>
      else if \<not> regex_test domainRegex cleanDomain then
        \<lparr>isValid = False, verror = Some ''Domain name contains invalid characters''\<rparr>
      else if startsWith cleanDomain ''-'' \<or> endsWith cleanDomain ''-'' then
        \<lparr>isValid = False, verror = Some ''Domain name cannot start or end with a hyphen''\<rparr>
      else
        \<lparr>isValid = True, verror = None\<rparr>)"


text \<open>
  The acceptance condition in the words of the specification: the input, lower-cased,
  matches the pattern and has between 1 and 63 characters.
\<close>

definition spec_accepts :: "string \<Rightarrow> bool" where
  "spec_accepts s \<longleftrightarrow>
     1 \<le> length s \<and> length s \<le> 63 \<and> regex_test domainRegex (toLowerCase s)"

text \<open>A label in explicit form: non-empty, only letters, digits and hyphens, no hyphen at
  either end.\<close>

definition label_ok :: "string \<Rightarrow> bool" where
  "label_ok s \<longleftrightarrow> s \<noteq> [] \<and> list_all (in_class alnum_hyphen) s \<and>
     hd s \<noteq> CHR ''-'' \<and> last s \<noteq> CHR ''-''"

section \<open>DomainsService: the registrar directory\<close>

text \<open>\<^verbatim>\<open>KenicRegistrar\<close>; \<open>rid\<close> is its \<^verbatim>\<open>id\<close> field.\<close>

record kenic_registrar =
  rid :: string
  name :: string
  phone :: string
  email :: string

definition kenicRegistrars :: "kenic_registrar list" where
  "kenicRegistrars = [
     \<lparr>rid = ''truehost'', name = ''Truehost Cloud Limited'',
      phone = ''+25420 790 3111'', email = ''info@truehost.co.ke''\<rparr>,
     \<lparr>rid = ''kwe'', name = ''Kenya Website Experts'',
      phone = ''0722 209 414'', email = ''info@kenyawebexperts.co.ke''\<rparr>,
     \<lparr>rid = ''sasahost'', name = ''Sasahost'',
      phone = ''+254 20 2498888'', email = ''info@sasahost.co.ke''\<rparr>,
     \<lparr>rid = ''webhost'', name = ''Web Host Kenya'',
      phone = ''0722 386 389'', email = ''info@webhostkenya.co.ke''\<rparr>,
     \<lparr>rid = ''hostpinnacle'', name = ''Host Pinnacle'',
      phone = ''0700 000 000'', email = ''info@hostpinnacle.co.ke''\<rparr>,
     \<lparr>rid = ''kenic'', name = ''Kenya Network Information Centre (KeNIC)'',
      phone = ''+254 20 387 4700'', email = ''info@kenic.or.ke''\<rparr>,
     \<lparr>rid = ''domainkenya'', name = ''Domain Kenya'',
      phone = ''0722 000 000'', email = ''info@domainkenya.co.ke''\<rparr>,
     \<lparr>rid = ''hostingreview'', name = ''Hosting Review Kenya'',
      phone = ''0700 123 456'', email = ''info@hostingreviewkenya.co.ke''\<rparr>,
     \<lparr>rid = ''smartweb'', name = ''Smart Web Kenya'',
      phone = ''0722 500 500'', email = ''info@smartwebkenya.co.ke''\<rparr>,
     \<lparr>rid = ''webcom'', name = ''Webcom Kenya'',
      phone = ''0722 700 700'', email = ''info@webcom.co.ke''\<rparr>,
     \<lparr>rid = ''hostpoa'', name = ''Host POA'',
      phone = ''0722 800 800'', email = ''info@hostpoa.co.ke''\<rparr>,
     \<lparr>rid = ''digitalocean'', name = ''DigitalOcean Kenya'',
      phone = ''0700 900 900'', email = ''support@digitalocean.co.ke''\<rparr>,
     \<lparr>rid = ''cloudflare'', name = ''Cloudflare Kenya'',
      phone = ''0722 111 111'', email = ''support@cloudflare.co.ke''\<rparr>,
     \<lparr>rid = ''hostgator'', name = ''HostGator Kenya'',
      phone = ''0700 222 222'', email = ''support@hostgator.co.ke''\<rparr>,
     \<lparr>rid = ''namecheap'', name = ''Namecheap Kenya'',
      phone = ''0722 333 333'', email = ''support@namecheap.co.ke''\<rparr>,
     \<lparr>rid = ''godaddy'', name = ''GoDaddy Kenya'',
      phone = ''0700 444 444'', email = ''support@godaddy.co.ke''\<rparr>,
     \<lparr>rid = ''bluehost'', name = ''Bluehost Kenya'',
      phone = ''0722 555 555'', email = ''support@bluehost.co.ke''\<rparr>,
     \<lparr>rid = ''hostinger'', name = ''Hostinger Kenya'',
      phone = ''0700 666 666'', email = ''support@hostinger.co.ke''\<rparr>,
     \<lparr>rid = ''siteground'', name = ''SiteGround Kenya'',
      phone = ''0722 777 777'', email = ''support@siteground.co.ke''\<rparr>,
     \<lparr>rid = ''dreamhost'', name = ''DreamHost Kenya'',
      phone = ''0700 888 888'', email = ''support@dreamhost.co.ke''\<rparr>]"

text \<open>
  \<^verbatim>\<open>Array.prototype.slice(start, end)\<close> on integer arguments: a negative index counts from
  the end of the array, both indices are clamped to the array, and an empty array is
  returned when the start is not before the end. It never raises.
\<close>

definition slice :: "'a list \<Rightarrow> int \<Rightarrow> int \<Rightarrow> 'a list" where
  "slice xs start end =
     (let len = int (length xs);
          k = (if start < 0 then max (len + start) 0 else min start len);
          final = (if end < 0 then max (len + end) 0 else min end len)
      in take (nat (final - k)) (drop (nat k) xs))"

record registrar_page =
  registrars :: "kenic_registrar list"
  hasMore :: bool
  total :: nat

text \<open>The parameters default to \<open>page = 1\<close> and \<open>limit = 10\<close> when a caller omits them.\<close>

definition getRegistrarsPaginated :: "int \<Rightarrow> int \<Rightarrow> registrar_page" where
  "getRegistrarsPaginated page limit =
     (let startIndex = (page - 1) * limit;
          endIndex = startIndex + limit;
          registrars = slice kenicRegistrars startIndex endIndex
      in \<lparr>registrars = registrars,
          hasMore = (endIndex < int (length kenicRegistrars)),
          total = length kenicRegistrars\<rparr>)"

text \<open>The number of the last page that holds registrars, for a page size of at least 1.\<close>

definition finalPage :: "int \<Rightarrow> int" where
  "finalPage limit = (int (length kenicRegistrars) + limit - 1) div limit"

section \<open>Exceptions, results and effects\<close>

text \<open>
  A thrown value: an instance of \<^verbatim>\<open>Error\<close> with its message, or any other value.
  \<open>message_or e fallback\<close> is the expression
  \<^verbatim>\<open>error instanceof Error ? error.message : fallback\<close> of the \<^verbatim>\<open>catch\<close> blocks.
\<close>

datatype exn = Error string | NonError

definition message_or :: "exn \<Rightarrow> string \<Rightarrow> string" where
  "message_or e fallback = (case e of Error m \<Rightarrow> m | NonError \<Rightarrow> fallback)"

text \<open>\<^verbatim>\<open>ApiResponse<T>\<close>, the object \<^verbatim>\<open>{ success: boolean; data?: T; error?: string }\<close>.\<close>

record 'a api_response =
  success :: bool
  data :: "'a option"
  error :: "string option"

definition succeed :: "'a option \<Rightarrow> 'a api_response" where
  "succeed d = \<lparr>success = True, data = d, error = None\<rparr>"

definition failure :: "string \<Rightarrow> 'a api_response" where
  "failure m = \<lparr>success = False, data = None, error = Some m\<rparr>"

text \<open>
  Asynchronous computations over a world of type \<open>'s\<close>. \<open>resolve\<close> returns a value,
  \<open>await m f\<close> runs \<open>m\<close> and continues with \<open>f\<close> unless \<open>m\<close> throws, \<open>throw\<close> throws,
  and \<open>try_catch m h\<close> is \<^verbatim>\<open>try { m } catch (e) { h(e) }\<close>. \<open>guarded m fallback\<close> is the
  frame shared by the service operations: the body in a \<^verbatim>\<open>try\<close> block whose \<^verbatim>\<open>catch\<close>
  returns \<^verbatim>\<open>{ success: false, error: ... }\<close>.
\<close>

type_synonym ('a, 's) io = "'s \<Rightarrow> (exn + 'a) \<times> 's"

definition resolve :: "'a \<Rightarrow> ('a, 's) io" where
  "resolve x s = (Inr x, s)"

definition await :: "('a, 's) io \<Rightarrow> ('a \<Rightarrow> ('b, 's) io) \<Rightarrow> ('b, 's) io" where
  "await m f s = (case m s of (Inl e, s') \<Rightarrow> (Inl e, s') | (Inr x, s') \<Rightarrow> f x s')"

definition throw :: "exn \<Rightarrow> ('a, 's) io" where
  "throw e s = (Inl e, s)"

definition try_catch :: "('a, 's) io \<Rightarrow> (exn \<Rightarrow> ('a, 's) io) \<Rightarrow> ('a, 's) io" where
  "try_catch m h s = (case m s of (Inl e, s') \<Rightarrow> h e s' | (Inr x, s') \<Rightarrow> (Inr x, s'))"

definition guarded :: "('a api_response, 's) io \<Rightarrow> string \<Rightarrow> ('a api_response, 's) io" where
  "guarded m fallback = try_catch m (\<lambda>e. resolve (failure (message_or e fallback)))"

section \<open>The hosted store as seen by the client\<close>

text \<open>
  A query of the Supabase client resolves to \<^verbatim>\<open>{ data, error }\<close> (\<open>pg_result\<close>), where
  the error carries a message and a code, or it throws. The rows of the tables
  \<^verbatim>\<open>lessons\<close> and \<^verbatim>\<open>user_lesson_progress\<close> are records with the columns that the
  code reads and writes; \<open>lid\<close> is the \<^verbatim>\<open>id\<close> column of a lesson and \<open>lstatus\<close> its
  \<^verbatim>\<open>status\<close> column.
\<close>

record pg_error =
  message :: string
  code :: string

record 'a pg_result =
  rdata :: "'a option"
  rerror :: "pg_error option"

record lesson =
  lid :: string
  title :: string
  category :: string
  difficulty :: string
  xp_reward :: int
  lstatus :: string

record user_progress =
  user_id :: string
  lesson_id :: string
  progress :: real
  completed :: bool
  completed_at :: "string option"

text \<open>
  The queries that \<^verbatim>\<open>LessonsService\<close> sends for lesson progress, one field for each
  query, and the clock read by \<^verbatim>\<open>new Date().toISOString()\<close>. Any behaviour of the store
  is a value of this record: a query may return data, return an error, or throw, and change
  the state of the world in any way.

  \<^item> \<open>progress_single u l\<close>:
    \<^verbatim>\<open>from('user_lesson_progress').select('*').eq('user_id', u).eq('lesson_id', l).single()\<close>
  \<^item> \<open>progress_all u\<close>: \<^verbatim>\<open>from('user_lesson_progress').select('*').eq('user_id', u)\<close>
  \<^item> \<open>progress_update row u l\<close>:
    \<^verbatim>\<open>.update(row).eq('user_id', u).eq('lesson_id', l).select().single()\<close>
  \<^item> \<open>progress_insert row\<close>: \<^verbatim>\<open>.insert([row]).select().single()\<close>
  \<^item> \<open>lesson_single l\<close>: \<^verbatim>\<open>from('lessons').select('*').eq('id', l).single()\<close>
\<close>

record 's lessons_db =
  progress_single :: "string \<Rightarrow> string \<Rightarrow> (user_progress pg_result, 's) io"
  progress_all :: "string \<Rightarrow> (user_progress list pg_result, 's) io"
  progress_update :: "user_progress \<Rightarrow> string \<Rightarrow> string \<Rightarrow> (user_progress pg_result, 's) io"
  progress_insert :: "user_progress \<Rightarrow> (user_progress pg_result, 's) io"
  lesson_single :: "string \<Rightarrow> (lesson pg_result, 's) io"
  date_now :: "'s \<Rightarrow> string"

section \<open>LessonsService\<close>

definition getLesson :: "'s lessons_db \<Rightarrow> string \<Rightarrow> (lesson api_response, 's) io" where
  "getLesson db lessonId =
     guarded
       (await (lesson_single db lessonId) (\<lambda>r.
          case rerror r of
            Some e \<Rightarrow> resolve (failure (message e))
          | None \<Rightarrow> resolve (succeed (rdata r))))
       ''Failed to fetch lesson''"

text \<open>The code \<^verbatim>\<open>PGRST116\<close> (no single row) is not treated as an error.\<close>

definition getUserProgress ::
  "'s lessons_db \<Rightarrow> string \<Rightarrow> string \<Rightarrow> (user_progress api_response, 's) io" where
  "getUserProgress db userId lessonId =
     guarded
       (await (progress_single db userId lessonId) (\<lambda>r.
          case rerror r of
            Some e \<Rightarrow>
              if code e \<noteq> ''PGRST116'' then resolve (failure (message e))
              else resolve (succeed (rdata r))
          | None \<Rightarrow> resolve (succeed (rdata r))))
       ''Failed to fetch user progress''"

definition getAllUserProgress ::
  "'s lessons_db \<Rightarrow> string \<Rightarrow> (user_progress list api_response, 's) io" where
  "getAllUserProgress db userId =
     guarded
       (await (progress_all db userId) (\<lambda>r.
          case rerror r of
            Some e \<Rightarrow> resolve (failure (message e))
          | None \<Rightarrow> resolve (succeed (rdata r))))
       ''Failed to fetch user progress''"

text \<open>The object \<^verbatim>\<open>progressData\<close> that \<open>updateProgress\<close> writes; \<open>now\<close> is the time of
  the call.\<close>

definition progressData :: "string \<Rightarrow> string \<Rightarrow> real \<Rightarrow> string \<Rightarrow> user_progress" where
  "progressData userId lessonId p now =
     \<lparr>user_id = userId,
      lesson_id = lessonId,
      progress = min (max p 0) 100,
      completed = (p \<ge> 100),
      completed_at = (if p \<ge> 100 then Some now else None)\<rparr>"

definition updateProgress ::
  "'s lessons_db \<Rightarrow> string \<Rightarrow> string \<Rightarrow> real \<Rightarrow> (user_progress api_response, 's) io" where
  "updateProgress db userId lessonId p =
     guarded
       (await (getUserProgress db userId lessonId) (\<lambda>existingProgress.
        await (\<lambda>s. (Inr (date_now db s), s)) (\<lambda>now.
        await (if data existingProgress \<noteq> None
               then progress_update db (progressData userId lessonId p now) userId lessonId
               else progress_insert db (progressData userId lessonId p now)) (\<lambda>result.
          case rerror result of
            Some e \<Rightarrow> resolve (failure (message e))
          | None \<Rightarrow> resolve (succeed (rdata result))))))
       ''Failed to update progress''"

definition completeLesson ::
  "'s lessons_db \<Rightarrow> string \<Rightarrow> string \<Rightarrow> (user_progress api_response, 's) io" where
  "completeLesson db userId lessonId =
     guarded
       (await (getLesson db lessonId) (\<lambda>lessonResult.
          if \<not> success lessonResult \<or> data lessonResult = None then
            resolve (failure ''Lesson not found'')
          else
            await (updateProgress db userId lessonId 100) (\<lambda>progressResult.
              if \<not> success progressResult then resolve progressResult
              else resolve progressResult)))
       ''Failed to complete lesson''"

text \<open>\<^verbatim>\<open>UserStats\<close>. The counts are natural numbers, so that \<^verbatim>\<open>Math.floor(x / y)\<close> is
  \<open>x div y\<close>. In \<open>getUserStats\<close>, \<^verbatim>\<open>progressResult.error || '...'\<close> falls back when the
  error is missing or the empty string.\<close>

record user_stats =
  totalXP :: nat
  level :: nat
  completedLessons :: nat
  streakDays :: nat
  badgesEarned :: nat

definition getUserStats :: "'s lessons_db \<Rightarrow> string \<Rightarrow> (user_stats api_response, 's) io" where
  "getUserStats db userId =
     guarded
       (await (getAllUserProgress db userId) (\<lambda>progressResult.
          if \<not> success progressResult then
            resolve (failure (case error progressResult of
                             Some m \<Rightarrow> if m \<noteq> [] then m else ''Failed to fetch user stats''
                           | None \<Rightarrow> ''Failed to fetch user stats''))
          else
            let allProgress = (case data progressResult of Some rows \<Rightarrow> rows | None \<Rightarrow> []);
                completedLessons = length (filter completed allProgress);
                totalXP = completedLessons * 50;
                level = totalXP div 200 + 1
            in resolve (succeed (Some
                 \<lparr>totalXP = totalXP,
                  level = level,
                  completedLessons = completedLessons,
                  streakDays = 0,
                  badgesEarned = completedLessons div 5\<rparr>))))
       ''Failed to calculate user stats''"

section \<open>A reference store\<close>

text \<open>
  A concrete store to state what is written: two tables as lists of rows, a clock, and a
  script of faults. Each query consumes one entry of the script (none when the script is
  exhausted): \<open>NoFault\<close> lets the query run on the tables, \<open>Fails e\<close> makes it return the
  error \<open>e\<close> and \<open>Throws x\<close> makes it throw \<open>x\<close>, both without touching the tables.
  \<open>single\<close> is \<^verbatim>\<open>.single()\<close>: exactly one row, or the error \<^verbatim>\<open>PGRST116\<close>. An update
  replaces the row of the user and lesson when there is exactly one; an insert appends a
  row.
\<close>

datatype fault = NoFault | Fails pg_error | Throws exn

record store =
  lessons :: "lesson list"
  user_lesson_progress :: "user_progress list"
  clock :: string
  faults :: "fault list"

definition request :: "(store \<Rightarrow> 'a pg_result \<times> store) \<Rightarrow> ('a pg_result, store) io" where
  "request run st =
     (case faults st of
        [] \<Rightarrow> (case run st of (r, st') \<Rightarrow> (Inr r, st'))
      | NoFault # fs \<Rightarrow> (case run (st\<lparr>faults := fs\<rparr>) of (r, st') \<Rightarrow> (Inr r, st'))
      | Fails e # fs \<Rightarrow> (Inr \<lparr>rdata = None, rerror = Some e\<rparr>, st\<lparr>faults := fs\<rparr>)
      | Throws x # fs \<Rightarrow> (Inl x, st\<lparr>faults := fs\<rparr>))"

definition no_single_row :: pg_error where
  "no_single_row =
     \<lparr>message = ''JSON object requested, multiple (or no) rows returned'', code = ''PGRST116''\<rparr>"

definition single :: "'a list \<Rightarrow> 'a pg_result" where
  "single rows =
     (case rows of
        [r] \<Rightarrow> \<lparr>rdata = Some r, rerror = None\<rparr>
      | _ \<Rightarrow> \<lparr>rdata = None, rerror = Some no_single_row\<rparr>)"

definition row_of :: "string \<Rightarrow> string \<Rightarrow> user_progress \<Rightarrow> bool" where
  "row_of u l r \<longleftrightarrow> user_id r = u \<and> lesson_id r = l"

definition store_db :: "store lessons_db" where
  "store_db =
     \<lparr>progress_single = (\<lambda>u l. request (\<lambda>st.
          (single (filter (row_of u l) (user_lesson_progress st)), st))),
      progress_all = (\<lambda>u. request (\<lambda>st.
          (\<lparr>rdata = Some (filter (\<lambda>r. user_id r = u) (user_lesson_progress st)), rerror = None\<rparr>, st))),
      progress_update = (\<lambda>row u l. request (\<lambda>st.
          if length (filter (row_of u l) (user_lesson_progress st)) = 1
          then (\<lparr>rdata = Some row, rerror = None\<rparr>,
                st\<lparr>user_lesson_progress :=
                     map (\<lambda>r. if row_of u l r then row else r) (user_lesson_progress st)\<rparr>)
          else (\<lparr>rdata = None, rerror = Some no_single_row\<rparr>, st))),
      progress_insert = (\<lambda>row. request (\<lambda>st.
          (\<lparr>rdata = Some row, rerror = None\<rparr>,
           st\<lparr>user_lesson_progress := user_lesson_progress st @ [row]\<rparr>))),
      lesson_single = (\<lambda>l. request (\<lambda>st.
          (single (filter (\<lambda>x. lid x = l) (lessons st)), st))),
      date_now = clock\<rparr>"

text \<open>A store with one lesson, in which user \<open>u1\<close> has completed five lessons out of six.\<close>

definition sample_store :: store where
  "sample_store = \<lparr>lessons = [\<lparr>lid = ''l1'', title = ''Intro'', category = ''web'', difficulty = ''beginner'',
                       xp_reward = 50, lstatus = ''published''\<rparr>],
          user_lesson_progress =
            [progressData ''u1'' ''l1'' 40 ''t0'', progressData ''u1'' ''l2'' 100 ''t0'',
             progressData ''u2'' ''l1'' 100 ''t0'', progressData ''u1'' ''l3'' 100 ''t1'',
             progressData ''u1'' ''l4'' 100 ''t2'', progressData ''u1'' ''l5'' 100 ''t3'',
             progressData ''u1'' ''l6'' 100 ''t4''],
          clock = ''2025-01-01T00:00:00.000Z'',
          faults = []\<rparr>"

section \<open>DomainsService: lookups\<close>

text \<open>The decimal digits of a number, as a template literal prints it.\<close>

definition digit :: "nat \<Rightarrow> char" where
  "digit k = char_of (charCode CHR ''0'' + k)"

fun string_of_nat :: "nat \<Rightarrow> string" where
  "string_of_nat n =
     (if 10 \<le> n then string_of_nat (n div 10) @ [digit (n mod 10)] else [digit n])"

text \<open>
  The request and the response of the lookup endpoint. \<open>rq_domain\<close> and \<open>rq_domainType\<close>
  are the fields \<^verbatim>\<open>domain\<close> and \<^verbatim>\<open>domainType\<close> of \<^verbatim>\<open>DomainLookupRequest\<close>, and
  \<open>lookup_available\<close> is \<^verbatim>\<open>available\<close> of \<^verbatim>\<open>DomainLookupResponse\<close>. Of the HTTP response
  the code reads \<^verbatim>\<open>ok\<close>, \<^verbatim>\<open>status\<close> and \<^verbatim>\<open>json()\<close>; parsing the body may throw
  (\<open>Inl\<close>) and may give \<^verbatim>\<open>null\<close> (\<open>Inr None\<close>). \<open>fetch_whois\<close> is the call of
  \<^verbatim>\<open>fetch\<close> on the lookup endpoint, which may throw.
\<close>

record domain_lookup_request =
  rq_domain :: string
  rq_domainType :: string

record domain_lookup_response =
  lookup_available :: bool

record http_response =
  ok :: bool
  status :: nat
  json :: "exn + domain_lookup_response option"

record 's net =
  fetch_whois :: "domain_lookup_request \<Rightarrow> (http_response, 's) io"

text \<open>\<^verbatim>\<open>DomainSearchResult\<close>; \<open>result_registrars\<close> is its optional \<^verbatim>\<open>registrars\<close>
  field.\<close>

record domain_search_result =
  domain :: string
  extension :: string
  available :: bool
  result_registrars :: "kenic_registrar list option"

definition getRegistrars :: "kenic_registrar list" where
  "getRegistrars = kenicRegistrars"

text \<open>The \<^verbatim>\<open>TypeError\<close> raised by \<^verbatim>\<open>data.available\<close> when the body is \<^verbatim>\<open>null\<close>; the
  wording of its message depends on the JavaScript engine.\<close>

definition null_property :: exn where
  "null_property = Error ''Cannot read property 'available' of null''"

definition searchDomain ::
  "'s net \<Rightarrow> string \<Rightarrow> string \<Rightarrow> (domain_search_result api_response, 's) io" where
  "searchDomain net d ext =
     guarded
       (let request = \<lparr>rq_domain = trim (toLowerCase d), rq_domainType = ext\<rparr> in
        await (fetch_whois net request) (\<lambda>response.
          if \<not> ok response then
            resolve (failure (''HTTP error: '' @ string_of_nat (status response)))
          else
            await (\<lambda>s. (json response, s)) (\<lambda>body.
              case body of
                None \<Rightarrow> throw null_property
              | Some dat \<Rightarrow>
                  resolve (succeed (Some
                    \<lparr>domain = rq_domain request,
                     extension = rq_domainType request,
                     available = lookup_available dat,
                     result_registrars =
                       (if lookup_available dat then Some getRegistrars else None)\<rparr>)))))
       ''Domain lookup failed''"

text \<open>
  \<^verbatim>\<open>Promise.allSettled\<close>: every computation of the list is run, and each outcome is kept
  in the position of its computation; the call itself never throws. The requests of a
  batch are in flight at the same time; in the model they act on the world in the order
  of the list.
\<close>

datatype 'a settled = Fulfilled 'a | Rejected exn

fun allSettled :: "('a, 's) io list \<Rightarrow> 's \<Rightarrow> 'a settled list \<times> 's" where
  "allSettled [] s = ([], s)"
| "allSettled (m # ms) s =
     (case m s of (r, s1) \<Rightarrow>
        (case allSettled ms s1 of (rs, s2) \<Rightarrow>
           ((case r of Inl e \<Rightarrow> Rejected e | Inr v \<Rightarrow> Fulfilled v) # rs, s2)))"

text \<open>
  The body of \<^verbatim>\<open>batchResults.forEach((result, index) => ...)\<close>: \<open>pushed\<close> is the value
  pushed for one result, where \<open>label\<close> is \<^verbatim>\<open>batch[index]\<close>. \<open>allSettled\<close> returns one
  result for each label of the batch, so every index is within the batch and the results
  are paired with the labels. An entry of the array is an option, since the code pushes
  \<^verbatim>\<open>result.value.data!\<close> as it is.
\<close>

definition failed_result :: "string \<Rightarrow> string \<Rightarrow> domain_search_result" where
  "failed_result label ext =
     \<lparr>domain = label, extension = ext, available = False, result_registrars = None\<rparr>"

definition pushed ::
  "string \<Rightarrow> domain_search_result api_response settled \<Rightarrow> string \<Rightarrow> domain_search_result option" where
  "pushed ext result label =
     (case result of
        Fulfilled v \<Rightarrow> if success v then data v else Some (failed_result label ext)
      | Rejected e \<Rightarrow> Some (failed_result label ext))"

definition collect ::
  "string \<Rightarrow> string list \<Rightarrow> domain_search_result api_response settled list \<Rightarrow>
     domain_search_result option list" where
  "collect ext batch batchResults = map (\<lambda>(result, label). pushed ext result label) (zip batchResults batch)"

text \<open>The loop \<^verbatim>\<open>for (let i = 0; i < domains.length; i += batchSize)\<close> with
  \<^verbatim>\<open>batchSize = 5\<close>; \<open>results\<close> is the array built so far.\<close>

function checkLoop ::
  "'s net \<Rightarrow> string list \<Rightarrow> string \<Rightarrow> nat \<Rightarrow> domain_search_result option list \<Rightarrow>
     (domain_search_result option list, 's) io" where
  "checkLoop net domains ext i results s =
     (if i < length domains then
        (let batch = slice domains (int i) (int i + 5) in
         case allSettled (map (\<lambda>d. searchDomain net d ext) batch) s of
           (batchResults, s') \<Rightarrow>
             checkLoop net domains ext (i + 5) (results @ collect ext batch batchResults) s')
      else (Inr results, s))"
  by pat_completeness auto
termination
  by (relation "measure (\<lambda>(net, domains, ext, i, results, s). length domains - i)") auto

definition checkMultipleDomains ::
  "'s net \<Rightarrow> string list \<Rightarrow> string \<Rightarrow> (domain_search_result option list api_response, 's) io" where
  "checkMultipleDomains net domains ext =
     guarded
       (await (checkLoop net domains ext 0 []) (\<lambda>results. resolve (succeed (Some results))))
       ''Batch domain lookup failed''"

text \<open>
  Batches in the words of the specification: \<open>chunks n xs\<close> cuts \<open>xs\<close> into consecutive
  pieces of \<open>n\<close> elements (the last one may be shorter), and \<open>process_batch\<close> runs the
  lookups of one batch and appends their results.
\<close>

function chunks :: "nat \<Rightarrow> 'a list \<Rightarrow> 'a list list" where
  "chunks n xs = (if n = 0 \<or> xs = [] then [] else take n xs # chunks n (drop n xs))"
  by pat_completeness auto
termination
  by (relation "measure (\<lambda>(n, xs). length xs)") auto

definition process_batch ::
  "'s net \<Rightarrow> string \<Rightarrow> string list \<Rightarrow> domain_search_result option list \<times> 's \<Rightarrow>
     domain_search_result option list \<times> 's" where
  "process_batch net ext batch acc =
     (case acc of (results, s) \<Rightarrow>
        (case allSettled (map (\<lambda>d. searchDomain net d ext) batch) s of
           (batchResults, s') \<Rightarrow> (results @ collect ext batch batchResults, s')))"



section \<open>LessonsService: the lesson catalogue\<close>









section \<open>AuthService\<close>




record profile_updates =
  new_email :: "string option"
  new_first_name :: "string option"
  new_last_name :: "string option"
  new_role :: "string option"
  new_organization :: "string option"














section \<open>The shape of result objects\<close>

text \<open>
  Result objects as JavaScript sees them: a list of properties whose values are booleans,
  strings, \<^verbatim>\<open>null\<close> or anything else. \<open>uniform_shape\<close> is the shape
  \<^verbatim>\<open>{success: boolean, data?, error?: string}\<close> of the specification: \<^verbatim>\<open>success\<close> is
  present and a boolean, \<^verbatim>\<open>error\<close> is a string when present, and there is no property
  besides \<^verbatim>\<open>success\<close>, \<^verbatim>\<open>data\<close> and \<^verbatim>\<open>error\<close>. \<open>settles_uniformly\<close> says of an
  asynchronous operation that from every state of the world it returns, without throwing,
  an object of this shape.
\<close>

datatype js_value = JBoolean bool | JString string | JNull | JOther







section \<open>Backends that are out of reach\<close>





section \<open>Simplification setup\<close>

text \<open>The recursive equations with a conditional on the right are unfolded by hand.\<close>

declare string_of_nat.simps [simp del]

declare chunks.simps [simp del]

declare checkLoop.simps [simp del]

section \<open>Properties of regular-expression matching\<close>

lemma nullable_lang: "nullable r \<longleftrightarrow> [] \<in> lang r"
  by (induction r) (auto simp: conc_def intro: star_empty)

lemma conc_Cons_iff:
  "c # w \<in> conc A B \<longleftrightarrow>
     ([] \<in> A \<and> c # w \<in> B) \<or> (\<exists>u v. w = u @ v \<and> c # u \<in> A \<and> v \<in> B)"
  unfolding conc_def by (auto simp: Cons_eq_append_conv)

lemma star_Cons_elim:
  assumes "x \<in> star A" and "x = c # w"
  shows "\<exists>u v. w = u @ v \<and> c # u \<in> A \<and> v \<in> star A"
  using assms
proof (induction arbitrary: w rule: star.induct)
  case star_empty
  then show ?case by simp
next
  case (star_step u v)
  show ?case
  proof (cases u)
    case Nil
    with star_step show ?thesis by simp
  next
    case (Cons d u')
    with star_step.prems have "d = c" and "w = u' @ v" by simp_all
    with Cons star_step.hyps show ?thesis by blast
  qed
qed

lemma star_Cons_iff:
  "c # w \<in> star A \<longleftrightarrow> (\<exists>u v. w = u @ v \<and> c # u \<in> A \<and> v \<in> star A)"
proof
  assume "c # w \<in> star A"
  then show "\<exists>u v. w = u @ v \<and> c # u \<in> A \<and> v \<in> star A"
    by (rule star_Cons_elim) simp
next
  assume "\<exists>u v. w = u @ v \<and> c # u \<in> A \<and> v \<in> star A"
  then obtain u v where "w = u @ v" "c # u \<in> A" "v \<in> star A" by blast
  then show "c # w \<in> star A"
    using star_step [of "c # u" A v] by simp
qed

lemma lang_deriv: "w \<in> lang (deriv c r) \<longleftrightarrow> c # w \<in> lang r"
proof (induction r arbitrary: w)
  case (Seq r s)
  then show ?case
    by (auto simp: conc_Cons_iff nullable_lang) (auto simp: conc_def)
next
  case (Star r)
  then show ?case
    by (auto simp: star_Cons_iff conc_def)
qed (auto simp: conc_def)

lemma regex_test_lang: "regex_test r s \<longleftrightarrow> s \<in> lang r"
  by (induction s arbitrary: r) (simp_all add: nullable_lang lang_deriv)


lemma star_singletons: "star {[c] | c. P c} = {w. \<forall>c \<in> set w. P c}"
proof (intro set_eqI iffI)
  fix w assume "w \<in> star {[c] | c. P c}"
  then show "w \<in> {w. \<forall>c \<in> set w. P c}"
    by (induction rule: star.induct) auto
next
  fix w assume "w \<in> {w. \<forall>c \<in> set w. P c}"
  then have "\<forall>c \<in> set w. P c" by simp
  then show "w \<in> star {[c] | c. P c}"
  proof (induction w)
    case Nil
    show ?case by (rule star_empty)
  next
    case (Cons a w)
    then have "[a] \<in> {[c] | c. P c}" and "w \<in> star {[c] | c. P c}" by auto
    then have "[a] @ w \<in> star {[c] | c. P c}" by (rule star_step)
    then show ?case by simp
  qed
qed

lemma charCode_hyphen: "charCode c = 45 \<longleftrightarrow> c = CHR ''-''"
proof -
  have "of_char c = (of_char CHR ''-'' :: nat) \<longleftrightarrow> c = CHR ''-''"
    by (rule of_char_eq_iff)
  then show ?thesis by (simp add: charCode_def)
qed

lemma in_alnum_iff: "in_class alnum c \<longleftrightarrow> in_class alnum_hyphen c \<and> c \<noteq> CHR ''-''"
proof -
  have "charCode CHR ''a'' = 97" "charCode CHR ''z'' = 122" "charCode CHR ''0'' = 48" "charCode CHR ''9'' = 57"
    "charCode CHR ''-'' = 45"
    by (simp_all add: charCode_def)
  then show ?thesis
    using charCode_hyphen [of c] by (auto simp: in_class_def alnum_def alnum_hyphen_def)
qed

lemma conc_class_left: "conc {[c] | c. P c} L = {c # t | c t. P c \<and> t \<in> L}"
proof (intro set_eqI iffI)
  fix w assume "w \<in> conc {[c] | c. P c} L"
  then show "w \<in> {c # t | c t. P c \<and> t \<in> L}"
    by (auto simp: conc_def)
next
  fix w assume "w \<in> {c # t | c t. P c \<and> t \<in> L}"
  then obtain c t where "w = [c] @ t" "P c" "t \<in> L" by auto
  then show "w \<in> conc {[c] | c. P c} L"
    unfolding conc_def by blast
qed

lemma conc_class_right: "conc L {[c] | c. P c} = {u @ [d] | u d. u \<in> L \<and> P d}"
  unfolding conc_def by auto

lemma lang_domainRegex:
  "s \<in> lang domainRegex \<longleftrightarrow>
     (\<exists>c t. s = c # t \<and> in_class alnum c \<and>
        (t = [] \<or> (\<exists>u d. t = u @ [d] \<and> (\<forall>x \<in> set u. in_class alnum_hyphen x) \<and> in_class alnum d)))"
  by (simp add: domainRegex_def Opt_def star_singletons conc_class_left conc_class_right)

lemma domainRegex_label_ok: "regex_test domainRegex s \<longleftrightarrow> label_ok s"
proof
  assume "regex_test domainRegex s"
  then obtain c t where s: "s = c # t" and c: "in_class alnum c"
    and t: "t = [] \<or> (\<exists>u d. t = u @ [d] \<and> (\<forall>x \<in> set u. in_class alnum_hyphen x) \<and> in_class alnum d)"
    unfolding regex_test_lang lang_domainRegex by blast
  from t show "label_ok s"
  proof
    assume "t = []"
    with s c show ?thesis by (simp add: label_ok_def in_alnum_iff)
  next
    assume "\<exists>u d. t = u @ [d] \<and> (\<forall>x \<in> set u. in_class alnum_hyphen x) \<and> in_class alnum d"
    then obtain u d where "t = u @ [d]" "\<forall>x \<in> set u. in_class alnum_hyphen x" "in_class alnum d"
      by blast
    with s c show ?thesis by (simp add: label_ok_def in_alnum_iff list_all_iff)
  qed
next
  assume ok: "label_ok s"
  then obtain c t where s: "s = c # t" by (cases s) (auto simp: label_ok_def)
  with ok have c: "in_class alnum c" by (simp add: label_ok_def in_alnum_iff)
  have "t = [] \<or> (\<exists>u d. t = u @ [d] \<and> (\<forall>x \<in> set u. in_class alnum_hyphen x) \<and> in_class alnum d)"
  proof (cases t rule: rev_cases)
    case Nil
    then show ?thesis by simp
  next
    case (snoc u d)
    with ok s have "(\<forall>x \<in> set u. in_class alnum_hyphen x) \<and> in_class alnum d"
      by (simp add: label_ok_def in_alnum_iff list_all_iff)
    with snoc show ?thesis by blast
  qed
  with s c show "regex_test domainRegex s"
    unfolding regex_test_lang lang_domainRegex by blast
qed

lemma startsWith_hyphen: "startsWith s ''-'' \<longleftrightarrow> s \<noteq> [] \<and> hd s = CHR ''-''"
  by (cases s) (auto simp: startsWith_def)

lemma endsWith_hyphen: "endsWith s ''-'' \<longleftrightarrow> s \<noteq> [] \<and> last s = CHR ''-''"
  by (cases s rule: rev_cases) (auto simp: endsWith_def)

section \<open>Properties of pagination\<close>

lemma length_kenicRegistrars: "length kenicRegistrars = 20"
  by (simp add: kenicRegistrars_def)

lemma slice_nonneg:
  "0 \<le> start \<Longrightarrow> start \<le> end \<Longrightarrow>
     slice xs start end = take (nat (end - start)) (drop (nat start) xs)"
  unfolding slice_def Let_def by (auto simp: min_def)

lemma page_registrars:
  assumes "1 \<le> page" and "1 \<le> limit"
  shows "registrars (getRegistrarsPaginated page limit) =
           take (nat limit) (drop (nat ((page - 1) * limit)) kenicRegistrars)"
proof -
  from assms have "0 \<le> (page - 1) * limit" by simp
  then show ?thesis
    using assms by (simp add: getRegistrarsPaginated_def Let_def slice_nonneg)
qed

lemma concat_chunks:
  "concat (map (\<lambda>p. take n (drop ((p - 1) * n) xs)) [1..<Suc k]) = take (k * n) xs"
proof (induction k)
  case 0
  show ?case by simp
next
  case (Suc k)
  have "Suc k * n = k * n + n" by simp
  then have "take (Suc k * n) xs = take (k * n) xs @ take n (drop (k * n) xs)"
    by (simp only: take_add)
  with Suc show ?case by simp
qed

lemma concat_pages:
  assumes "1 \<le> limit"
  shows "concat (map (\<lambda>p. registrars (getRegistrarsPaginated (int p) limit)) [1..<Suc k]) =
           take (k * nat limit) kenicRegistrars"
proof -
  have "registrars (getRegistrarsPaginated (int p) limit) =
          take (nat limit) (drop ((p - 1) * nat limit) kenicRegistrars)"
    if "p \<in> set [1..<Suc k]" for p
  proof -
    from that have p: "1 \<le> int p" by auto
    have "nat ((int p - 1) * limit) = (p - 1) * nat limit"
      using p assms by (simp add: nat_mult_distrib)
    with page_registrars [OF p assms] show ?thesis by simp
  qed
  then have "map (\<lambda>p. registrars (getRegistrarsPaginated (int p) limit)) [1..<Suc k] =
          map (\<lambda>p. take (nat limit) (drop ((p - 1) * nat limit) kenicRegistrars)) [1..<Suc k]"
    by (intro map_cong) simp_all
  then show ?thesis by (simp only: concat_chunks)
qed

lemma finalPage_le_iff:
  assumes "1 \<le> limit"
  shows "finalPage limit \<le> page \<longleftrightarrow> int (length kenicRegistrars) \<le> page * limit"
proof -
  define a where "a = 20 + limit - 1"
  have "a div limit \<le> page \<longleftrightarrow> 20 \<le> page * limit"
  proof
    assume "a div limit \<le> page"
    then have "a div limit * limit \<le> page * limit"
      using assms by (simp add: mult_right_mono)
    moreover have "a div limit * limit + a mod limit = a"
      by (rule div_mult_mod_eq)
    moreover have "a mod limit < limit"
      using assms by simp
    ultimately show "20 \<le> page * limit"
      unfolding a_def by linarith
  next
    assume "20 \<le> page * limit"
    then have "a < (page + 1) * limit"
      by (simp add: a_def algebra_simps)
    moreover have "a div limit * limit + a mod limit = a"
      by (rule div_mult_mod_eq)
    moreover have "0 \<le> a mod limit"
      using assms by simp
    ultimately have "a div limit * limit < (page + 1) * limit" by linarith
    then have "a div limit < page + 1"
      using assms by (simp add: mult_less_cancel_right)
    then show "a div limit \<le> page" by simp
  qed
  then show ?thesis by (simp add: finalPage_def length_kenicRegistrars a_def)
qed



section \<open>Claims about \<open>validateDomainName\<close>\<close>

text \<open>
  C3, as stated, does not hold. The claim makes \<open>validateDomainName\<close> accept exactly the
  inputs that, lower-cased, match the pattern and have 1 to 63 characters, and reject every
  input with a character outside \<^verbatim>\<open>[a-z0-9-]\<close>. The code also trims the input before it
  validates: \<^verbatim>\<open>"abc "\<close>, with a trailing space, is accepted although it does not match the
  pattern and contains a character outside the class.
\<close>

theorem validateDomainName_untrimmed_counterexample:
  "isValid (validateDomainName ''abc '') \<and> \<not> spec_accepts ''abc '' \<and>
   \<not> list_all (in_class alnum_hyphen) (toLowerCase ''abc '')"
  by code_simp

text \<open>
  C3, amended: with \<open>c\<close> the input lower-cased and then trimmed of surrounding white space,
  \<open>validateDomainName\<close> returns \<open>isValid = true\<close> exactly when \<open>c\<close> has between 1 and 63
  characters and matches \<^verbatim>\<open>^[a-z0-9]([a-z0-9-]*[a-z0-9])?$\<close>; and \<open>c\<close> matches the pattern
  exactly when it is non-empty, consists of characters of \<^verbatim>\<open>[a-z0-9-]\<close> only, and neither
  starts nor ends with a hyphen. So the empty string, a \<open>c\<close> longer than 63 characters, a
  leading or trailing hyphen and a character outside the class are all rejected.
\<close>

theorem validateDomainName_accepts_iff:
  "(isValid (validateDomainName input) \<longleftrightarrow>
      1 \<le> length (trim (toLowerCase input)) \<and> length (trim (toLowerCase input)) \<le> 63 \<and>
      regex_test domainRegex (trim (toLowerCase input))) \<and>
   (regex_test domainRegex c \<longleftrightarrow>
      c \<noteq> [] \<and> list_all (in_class alnum_hyphen) c \<and>
      \<not> startsWith c ''-'' \<and> \<not> endsWith c ''-'')"
  by (auto simp: validateDomainName_def Let_def domainRegex_label_ok label_ok_def
      startsWith_hyphen endsWith_hyphen Suc_le_eq)

text \<open>
  C9: \<open>validateDomainName\<close> never returns the message
  \<^verbatim>\<open>Domain name cannot start or end with a hyphen\<close>. The check that would produce it comes
  after the pattern test, and the pattern rejects every string that starts or ends with a
  hyphen.
\<close>

theorem validateDomainName_hyphen_message_unreachable:
  "verror (validateDomainName input) \<noteq> Some ''Domain name cannot start or end with a hyphen'' \<and>
   (startsWith c ''-'' \<or> endsWith c ''-'' \<longrightarrow> \<not> regex_test domainRegex c)"
  by (simp add: validateDomainName_def Let_def domainRegex_label_ok label_ok_def
      startsWith_hyphen endsWith_hyphen)

theorem validateDomainName_hyphen_message_unreachable_witness:
  "verror (validateDomainName ''-ab'') \<noteq> Some ''Domain name cannot start or end with a hyphen'' \<and>
   startsWith ''-ab'' ''-'' \<and> \<not> regex_test domainRegex ''-ab'' \<and>
   verror (validateDomainName ''-ab'') = Some ''Domain name contains invalid characters''"
proof -
  have "startsWith ''-ab'' ''-''"
    by (simp add: startsWith_def)
  moreover have "verror (validateDomainName ''-ab'') = Some ''Domain name contains invalid characters''"
    by code_simp
  ultimately show ?thesis
    using validateDomainName_hyphen_message_unreachable [of "''-ab''" "''-ab''"] by simp
qed

section \<open>Claims about \<open>getRegistrarsPaginated\<close>\<close>

text \<open>
  C4, as stated, does not hold. With 1-based numbering the pages of the list are
  \<open>1, \<dots>, finalPage\<close>; page 0 and the negative pages are outside this range as well.
  For page 0 with page size 10 the slice is empty but \<open>hasMore\<close> is \<open>true\<close>, and for page
  \<open>-1\<close> the negative indices count from the end of the list, so that the slice is the
  first ten registrars.
\<close>

theorem getRegistrarsPaginated_page_zero_counterexample:
  "\<not> (1 \<le> (0::int)) \<and> hasMore (getRegistrarsPaginated 0 10) \<and>
   registrars (getRegistrarsPaginated (- 1) 10) = take 10 kenicRegistrars"
  by (simp add: getRegistrarsPaginated_def slice_def length_kenicRegistrars)

text \<open>
  C4, amended: for a page size of at least 1 and every page number beyond the last page of
  the list, \<open>getRegistrarsPaginated\<close> returns an empty slice and \<open>hasMore = false\<close>
  (\<open>slice\<close> never raises, whatever the indices).
\<close>

theorem getRegistrarsPaginated_beyond_last_page:
  assumes "1 \<le> limit" and "finalPage limit < page"
  shows "registrars (getRegistrarsPaginated page limit) = [] \<and>
         \<not> hasMore (getRegistrarsPaginated page limit)"
proof -
  from assms have "finalPage limit \<le> page - 1" by simp
  then have past: "int (length kenicRegistrars) \<le> (page - 1) * limit"
    using finalPage_le_iff [OF assms(1), of "page - 1"] by blast
  have "1 \<le> page"
  proof (rule ccontr)
    assume "\<not> 1 \<le> page"
    then have "page - 1 \<le> 0" by simp
    with assms(1) have "(page - 1) * limit \<le> 0"
      by (simp add: mult_nonpos_nonneg)
    with past show False
      by (simp add: length_kenicRegistrars)
  qed
  with assms(1) past show ?thesis
    by (simp add: page_registrars) (simp add: getRegistrarsPaginated_def Let_def)
qed

theorem getRegistrarsPaginated_beyond_last_page_witness:
  "(1::int) \<le> 10 \<and> finalPage 10 < 3 \<and>
   registrars (getRegistrarsPaginated 3 10) = [] \<and> \<not> hasMore (getRegistrarsPaginated 3 10)"
proof -
  have h: "(1::int) \<le> 10" "finalPage 10 < 3"
    by (simp_all add: finalPage_def length_kenicRegistrars)
  show ?thesis
    using h getRegistrarsPaginated_beyond_last_page [OF h] by simp
qed

text \<open>
  C5: for every page number \<open>page \<ge> 1\<close> and page size \<open>limit \<ge> 1\<close>, the result of
  \<open>getRegistrarsPaginated\<close> is a contiguous slice of the registrar list, starting at index
  \<open>(page - 1) * limit\<close>, of at most \<open>limit\<close> entries; the slices of the pages
  \<open>1, \<dots>, k\<close> concatenated give the whole list, once and in order, as soon as \<open>k\<close> reaches
  the final page; \<open>hasMore\<close> holds exactly when \<open>page * limit\<close> is before the end of the
  list; among the pages of the list \<open>hasMore\<close> is false on the final page only (it is
  false on the pages after it too, which are empty); and \<open>total\<close> is the length of the
  list.
\<close>

theorem getRegistrarsPaginated_pages:
  assumes "1 \<le> page" and "1 \<le> limit"
  shows "registrars (getRegistrarsPaginated page limit) =
           take (nat limit) (drop (nat ((page - 1) * limit)) kenicRegistrars) \<and>
         length (registrars (getRegistrarsPaginated page limit)) \<le> nat limit \<and>
         (\<forall>k. nat (finalPage limit) \<le> k \<longrightarrow>
            concat (map (\<lambda>p. registrars (getRegistrarsPaginated (int p) limit)) [1..<Suc k]) =
              kenicRegistrars) \<and>
         (hasMore (getRegistrarsPaginated page limit) \<longleftrightarrow>
            page * limit < int (length kenicRegistrars)) \<and>
         (\<not> hasMore (getRegistrarsPaginated page limit) \<longleftrightarrow> finalPage limit \<le> page) \<and>
         (page \<le> finalPage limit \<longrightarrow>
            (\<not> hasMore (getRegistrarsPaginated page limit) \<longleftrightarrow> page = finalPage limit)) \<and>
         total (getRegistrarsPaginated page limit) = length kenicRegistrars"
proof -
  have slice_eq: "registrars (getRegistrarsPaginated page limit) =
      take (nat limit) (drop (nat ((page - 1) * limit)) kenicRegistrars)"
    using assms by (rule page_registrars)
  have len: "length (registrars (getRegistrarsPaginated page limit)) \<le> nat limit"
    by (simp add: slice_eq)
  have more: "hasMore (getRegistrarsPaginated page limit) \<longleftrightarrow>
      page * limit < int (length kenicRegistrars)"
    by (simp add: getRegistrarsPaginated_def Let_def algebra_simps)
  have last: "\<not> hasMore (getRegistrarsPaginated page limit) \<longleftrightarrow> finalPage limit \<le> page"
    using finalPage_le_iff [OF assms(2), of page] more by auto
  have all: "concat (map (\<lambda>p. registrars (getRegistrarsPaginated (int p) limit)) [1..<Suc k]) =
      kenicRegistrars" if k: "nat (finalPage limit) \<le> k" for k
  proof -
    from k have "finalPage limit \<le> int k" by simp
    then have "int (length kenicRegistrars) \<le> int k * limit"
      using finalPage_le_iff [OF assms(2)] by simp
    also have "int k * limit = int (k * nat limit)"
      using assms(2) by simp
    finally have "length kenicRegistrars \<le> k * nat limit"
      by (simp only: of_nat_le_iff)
    then have "take (k * nat limit) kenicRegistrars = kenicRegistrars"
      by simp
    with concat_pages [OF assms(2), of k] show ?thesis
      by (simp only:)
  qed
  have tot: "total (getRegistrarsPaginated page limit) = length kenicRegistrars"
    by (simp add: getRegistrarsPaginated_def Let_def)
  from slice_eq len all more last tot show ?thesis by auto
qed

theorem getRegistrarsPaginated_pages_witness:
  "(1::int) \<le> 2 \<and> (1::int) \<le> 8 \<and> finalPage 8 = 3 \<and>
   registrars (getRegistrarsPaginated 2 8) = take 8 (drop 8 kenicRegistrars) \<and>
   hasMore (getRegistrarsPaginated 2 8) \<and> \<not> hasMore (getRegistrarsPaginated 3 8) \<and>
   registrars (getRegistrarsPaginated 1 8) @ registrars (getRegistrarsPaginated 2 8) @
     registrars (getRegistrarsPaginated 3 8) = kenicRegistrars \<and>
   total (getRegistrarsPaginated 2 8) = 20"
proof -
  have h: "(1::int) \<le> 2" "(1::int) \<le> 8" by simp_all
  have f: "finalPage 8 = 3"
    by (simp add: finalPage_def length_kenicRegistrars)
  have three: "[1..<Suc 3] = [1, 2, 3]"
    by (simp add: upt_rec)
  have h3: "(1::int) \<le> 3" by simp
  note p2 = getRegistrarsPaginated_pages [OF h]
  note p3 = getRegistrarsPaginated_pages [OF h3 h(2)]
  from p2 have "nat (finalPage 8) \<le> 3 \<longrightarrow>
      concat (map (\<lambda>p. registrars (getRegistrarsPaginated (int p) 8)) [1..<Suc 3]) =
        kenicRegistrars"
    by blast
  moreover have "nat (finalPage 8) \<le> 3"
    using f by simp
  ultimately have "concat (map (\<lambda>p. registrars (getRegistrarsPaginated (int p) 8)) [1..<Suc 3]) =
      kenicRegistrars"
    by blast
  then have cat: "registrars (getRegistrarsPaginated 1 8) @ registrars (getRegistrarsPaginated 2 8) @
     registrars (getRegistrarsPaginated 3 8) = kenicRegistrars"
    unfolding three by simp
  from p2 p3 f cat show ?thesis
    by (simp add: length_kenicRegistrars)
qed

section \<open>Properties of the effect combinators and of LessonsService\<close>

lemma guarded_unfold:
  "guarded m fallback s =
     (case m s of
        (Inl e, s') \<Rightarrow> (Inr (failure (message_or e fallback)), s')
      | (Inr x, s') \<Rightarrow> (Inr x, s'))"
  by (simp add: guarded_def try_catch_def resolve_def split: prod.splits sum.splits)

lemma guarded_returns: "\<exists>r s'. guarded m fallback s = (Inr r, s')"
  by (simp add: guarded_unfold split: prod.splits sum.splits)

lemma getLesson_returns: "\<exists>r s'. getLesson db lessonId s = (Inr r, s')"
  unfolding getLesson_def by (rule guarded_returns)


lemma getAllUserProgress_returns: "\<exists>r s'. getAllUserProgress db userId s = (Inr r, s')"
  unfolding getAllUserProgress_def by (rule guarded_returns)

lemma updateProgress_returns: "\<exists>r s'. updateProgress db userId lessonId p s = (Inr r, s')"
  unfolding updateProgress_def by (rule guarded_returns)

lemma guarded_Inr: "m s = (Inr x, s') \<Longrightarrow> guarded m fallback s = (Inr x, s')"
  by (simp add: guarded_unfold)

lemma await_Inr: "m s = (Inr x, s') \<Longrightarrow> await m f s = f x s'"
  by (simp add: await_def)

lemma await_Inl: "m s = (Inl e, s') \<Longrightarrow> await m f s = (Inl e, s')"
  by (simp add: await_def)

lemma completeLesson_cases:
  assumes "getLesson db lessonId s = (Inr lessonResult, s1)"
  shows "completeLesson db userId lessonId s =
           (if \<not> success lessonResult \<or> data lessonResult = None
            then (Inr (failure ''Lesson not found''), s1)
            else updateProgress db userId lessonId 100 s1)"
proof (cases "\<not> success lessonResult \<or> data lessonResult = None")
  case True
  then show ?thesis
    using assms by (simp add: completeLesson_def guarded_unfold await_def resolve_def)
next
  case False
  obtain r s2 where up: "updateProgress db userId lessonId 100 s1 = (Inr r, s2)"
    using updateProgress_returns [of db userId lessonId 100 s1] by auto
  with False assms show ?thesis
    by (auto simp: completeLesson_def guarded_unfold await_def resolve_def)
qed

lemma getUserStats_of_rows:
  assumes "progress_all db userId s = (Inr \<lparr>rdata = d, rerror = None\<rparr>, s')"
  shows "getUserStats db userId s =
           (Inr (succeed (Some
              \<lparr>totalXP = length (filter completed (case d of Some rows \<Rightarrow> rows | None \<Rightarrow> [])) * 50,
               level = length (filter completed (case d of Some rows \<Rightarrow> rows | None \<Rightarrow> [])) * 50 div 200 + 1,
               completedLessons = length (filter completed (case d of Some rows \<Rightarrow> rows | None \<Rightarrow> [])),
               streakDays = 0,
               badgesEarned = length (filter completed (case d of Some rows \<Rightarrow> rows | None \<Rightarrow> [])) div 5\<rparr>)), s')"
proof -
  have "getAllUserProgress db userId s = (Inr (succeed d), s')"
    using assms by (simp add: getAllUserProgress_def guarded_unfold await_def resolve_def)
  then show ?thesis
    by (simp add: getUserStats_def guarded_unfold await_def resolve_def succeed_def Let_def)
qed


lemma request_clock: "(\<And>st r st'. run st = (r, st') \<Longrightarrow> clock st' = clock st) \<Longrightarrow>
   request run st = (x, st') \<Longrightarrow> clock st' = clock st"
  unfolding request_def
  by (auto split: list.splits fault.splits prod.splits)










lemma request_no_fault: "faults st = [] \<Longrightarrow> request run st = (Inr (fst (run st)), snd (run st))"
  by (simp add: request_def split: prod.splits)




lemma getLesson_absent:
  assumes "filter (\<lambda>x. lid x = l) (lessons st) = []" and "getLesson store_db l st = (Inr r, st')"
  shows "\<not> success r \<and> user_lesson_progress st' = user_lesson_progress st"
proof -
  obtain y st1 where ls: "lesson_single store_db l st = (y, st1)"
    by (cases "lesson_single store_db l st")
  then have "(\<exists>x. y = Inl x) \<or> (\<exists>res e. y = Inr res \<and> rerror res = Some e)"
    and keep: "user_lesson_progress st1 = user_lesson_progress st"
    using assms(1)
    by (auto simp: store_db_def request_def single_def split: list.splits fault.splits)
  with assms(2) ls show ?thesis
    by (auto simp: getLesson_def guarded_unfold await_def resolve_def failure_def)
qed


section \<open>Properties of batched lookups\<close>

lemma searchDomain_returns: "\<exists>r s'. searchDomain net d ext s = (Inr r, s')"
  unfolding searchDomain_def by (rule guarded_returns)

lemma allSettled_length_eq: "allSettled ms s = (rs, s') \<Longrightarrow> length rs = length ms"
  by (induction ms arbitrary: s rs s') (auto split: prod.splits)

lemma allSettled_length: "length (fst (allSettled ms s)) = length ms"
  using allSettled_length_eq [of ms s] by (cases "allSettled ms s") simp

lemma allSettled_append:
  "allSettled (ms @ ns) s =
     (case allSettled ms s of (a, s1) \<Rightarrow>
        (case allSettled ns s1 of (b, s2) \<Rightarrow> (a @ b, s2)))"
  by (induction ms arbitrary: s) (auto split: prod.splits)

lemma collect_append:
  "length a = length xs \<Longrightarrow>
     collect ext (xs @ ys) (a @ b) = collect ext xs a @ collect ext ys b"
  by (simp add: collect_def)

lemma chunks_Nil: "chunks n [] = []"
  by (simp add: chunks.simps)





lemma checkLoop_fold:
  "checkLoop net domains ext i results s =
     (case fold (process_batch net ext) (chunks 5 (drop i domains)) (results, s) of
        (rs, s') \<Rightarrow> (Inr rs, s'))"
proof (induction net domains ext i results s rule: checkLoop.induct)
  case (1 net domains ext i results s)
  show ?case
  proof (cases "i < length domains")
    case False
    then show ?thesis
      by (simp add: chunks_Nil checkLoop.simps [of net domains ext i results s])
  next
    case True
    define batch where "batch = slice domains (int i) (int i + 5)"
    have batch: "batch = take 5 (drop i domains)"
      by (simp add: batch_def slice_nonneg)
    obtain batchResults s' where run:
      "allSettled (map (\<lambda>d. searchDomain net d ext) batch) s = (batchResults, s')"
      by (cases "allSettled (map (\<lambda>d. searchDomain net d ext) batch) s")
    have step: "checkLoop net domains ext i results s =
        checkLoop net domains ext (i + 5) (results @ collect ext batch batchResults) s'"
      using True run
      by (simp add: batch_def Let_def checkLoop.simps [of net domains ext i results s])
    have "chunks 5 (drop i domains) = batch # chunks 5 (drop (i + 5) domains)"
      using True by (simp add: chunks.simps [of 5 "drop i domains"] batch add.commute)
    then have "fold (process_batch net ext) (chunks 5 (drop i domains)) (results, s) =
        fold (process_batch net ext) (chunks 5 (drop (i + 5) domains))
          (results @ collect ext batch batchResults, s')"
      using run by (simp add: process_batch_def)
    with step "1.IH" [OF True batch_def run [symmetric]] show ?thesis
      by simp
  qed
qed

lemma fold_batches_flat:
  "fold (process_batch net ext) (chunks (Suc n) xs) (results, s) =
     (case allSettled (map (\<lambda>d. searchDomain net d ext) xs) s of
        (outcomes, s') \<Rightarrow> (results @ collect ext xs outcomes, s'))"
proof (induction "Suc n" xs arbitrary: results s rule: chunks.induct)
  case (1 xs)
  show ?case
  proof (cases "xs = []")
    case True
    then show ?thesis
      by (simp add: chunks.simps [of "Suc n" "[]"] collect_def)
  next
    case False
    define f where "f = (\<lambda>d. searchDomain net d ext)"
    obtain a s1 where a: "allSettled (map f (take (Suc n) xs)) s = (a, s1)"
      by (cases "allSettled (map f (take (Suc n) xs)) s")
    obtain b s2 where b: "allSettled (map f (drop (Suc n) xs)) s1 = (b, s2)"
      by (cases "allSettled (map f (drop (Suc n) xs)) s1")
    have len: "length a = length (take (Suc n) xs)"
      using allSettled_length [of "map f (take (Suc n) xs)" s] a by simp
    have "map f xs = map f (take (Suc n) xs) @ map f (drop (Suc n) xs)"
      by (simp flip: map_append)
    then have whole: "allSettled (map f xs) s = (a @ b, s2)"
      using a b by (simp add: allSettled_append)
    have "collect ext xs (a @ b) =
        collect ext (take (Suc n) xs) a @ collect ext (drop (Suc n) xs) b"
      using collect_append [OF len, of ext "drop (Suc n) xs" b] by simp
    moreover have "fold (process_batch net ext) (chunks (Suc n) xs) (results, s) =
        fold (process_batch net ext) (chunks (Suc n) (drop (Suc n) xs))
          (results @ collect ext (take (Suc n) xs) a, s1)"
      using False a by (simp add: chunks.simps [of "Suc n" xs] process_batch_def f_def)
    ultimately show ?thesis
      using "1.hyps" [of "results @ collect ext (take (Suc n) xs) a" s1] False whole b
      by (simp add: f_def)
  qed
qed

lemma checkMultipleDomains_flat:
  "checkMultipleDomains net domains ext s =
     (case allSettled (map (\<lambda>d. searchDomain net d ext) domains) s of
        (outcomes, s') \<Rightarrow> (Inr (succeed (Some (collect ext domains outcomes))), s'))"
proof -
  have "checkLoop net domains ext 0 [] s =
      (case allSettled (map (\<lambda>d. searchDomain net d ext) domains) s of
         (outcomes, s') \<Rightarrow> (Inr (collect ext domains outcomes), s'))"
    using fold_batches_flat [of net ext 4 domains "[]" s]
    by (simp add: checkLoop_fold split: prod.splits)
  then show ?thesis
    by (simp add: checkMultipleDomains_def guarded_unfold await_def resolve_def split: prod.splits)
qed

lemma collect_length:
  "length outcomes = length domains \<Longrightarrow> length (collect ext domains outcomes) = length domains"
  by (simp add: collect_def)


lemma searchDomain_success_data:
  assumes "searchDomain net d ext s = (Inr r, s')" and "success r"
  shows "data r \<noteq> None"
  using assms
  by (auto simp: searchDomain_def guarded_unfold await_def resolve_def throw_def Let_def
      failure_def succeed_def split: prod.splits sum.splits option.splits if_splits)

lemma allSettled_searchDomain:
  assumes "allSettled (map (\<lambda>d. searchDomain net d ext) labels) s = (outcomes, s')"
    and "o' \<in> set outcomes"
  shows "\<exists>v. o' = Fulfilled v \<and> (success v \<longrightarrow> data v \<noteq> None)"
  using assms
proof (induction labels arbitrary: s outcomes s')
  case Nil
  then show ?case by simp
next
  case (Cons d labels)
  obtain r s1 where r: "searchDomain net d ext s = (Inr r, s1)"
    using searchDomain_returns [of net d ext s] by auto
  obtain rest s2 where rest: "allSettled (map (\<lambda>d. searchDomain net d ext) labels) s1 = (rest, s2)"
    by (cases "allSettled (map (\<lambda>d. searchDomain net d ext) labels) s1")
  from Cons.prems(1) r rest have "outcomes = Fulfilled r # rest" by simp
  with Cons.prems(2) have "o' = Fulfilled r \<or> o' \<in> set rest" by auto
  then show ?case
  proof
    assume "o' = Fulfilled r"
    with searchDomain_success_data [OF r] show ?thesis by blast
  next
    assume "o' \<in> set rest"
    with Cons.IH [OF rest] show ?thesis .
  qed
qed

lemma collect_defined:
  assumes "allSettled (map (\<lambda>d. searchDomain net d ext) labels) s = (outcomes, s')"
  shows "list_all (\<lambda>x. x \<noteq> None) (collect ext labels outcomes)"
proof -
  have "pushed ext o' label \<noteq> None" if "o' \<in> set outcomes" for o' label
    using allSettled_searchDomain [OF assms that]
    by (auto simp: pushed_def)
  then show ?thesis
    by (auto simp: collect_def list_all_iff dest: set_zip_leftD)
qed



lemma getLesson_present:
  assumes "filter (\<lambda>x. lid x = l) (lessons st) = [x]" and "faults st = []"
  shows "getLesson store_db l st = (Inr (succeed (Some x)), st)"
proof -
  have "lesson_single store_db l st = (Inr \<lparr>rdata = Some x, rerror = None\<rparr>, st)"
    using assms by (simp add: store_db_def request_no_fault single_def)
  then show ?thesis
    by (simp add: getLesson_def guarded_unfold await_def resolve_def)
qed

section \<open>Claims about \<open>LessonsService\<close>\<close>



text \<open>
  C2: when the read of the progress rows of a user succeeds and exactly \<open>c\<close> of the rows
  have \<open>completed = true\<close>, \<open>getUserStats\<close> returns \<open>totalXP = 50 * c\<close>,
  \<open>level = floor (50 * c / 200) + 1 = floor (c / 4) + 1\<close>, \<open>completedLessons = c\<close>,
  \<open>streakDays = 0\<close> and \<open>badgesEarned = floor (c / 5)\<close>; with no completed lesson this is
  \<open>{totalXP: 0, level: 1, completedLessons: 0, badgesEarned: 0}\<close>.
\<close>

theorem getUserStats_formula:
  assumes "progress_all db userId s = (Inr \<lparr>rdata = Some rows, rerror = None\<rparr>, s')"
    and "length (filter completed rows) = c"
  shows "getUserStats db userId s =
           (Inr (succeed (Some \<lparr>totalXP = 50 * c, level = c div 4 + 1, completedLessons = c,
                                 streakDays = 0, badgesEarned = c div 5\<rparr>)), s') \<and>
         50 * c div 200 + 1 = c div 4 + 1 \<and>
         (c = 0 \<longrightarrow> getUserStats db userId s =
           (Inr (succeed (Some \<lparr>totalXP = 0, level = 1, completedLessons = 0,
                                 streakDays = 0, badgesEarned = 0\<rparr>)), s'))"
proof -
  have "50 * c div 200 = c div 4"
    by simp
  with getUserStats_of_rows [OF assms(1)] assms(2) show ?thesis
    by (simp add: mult.commute)
qed

theorem getUserStats_formula_witness:
  "fst (getUserStats store_db ''u1'' sample_store) =
     Inr (succeed (Some \<lparr>totalXP = 250, level = 2, completedLessons = 5,
                          streakDays = 0, badgesEarned = 1\<rparr>)) \<and>
   fst (getUserStats store_db ''u3'' sample_store) =
     Inr (succeed (Some \<lparr>totalXP = 0, level = 1, completedLessons = 0,
                          streakDays = 0, badgesEarned = 0\<rparr>))"
proof -
  define rows1 where "rows1 = filter (\<lambda>r. user_id r = ''u1'') (user_lesson_progress sample_store)"
  have read1: "progress_all store_db ''u1'' sample_store =
      (Inr \<lparr>rdata = Some rows1, rerror = None\<rparr>, sample_store)"
    by (simp add: store_db_def request_no_fault rows1_def sample_store_def)
  have c1: "length (filter completed rows1) = 5"
    by (simp add: rows1_def sample_store_def progressData_def)
  have read3: "progress_all store_db ''u3'' sample_store =
      (Inr \<lparr>rdata = Some [], rerror = None\<rparr>, sample_store)"
    by (simp add: store_db_def request_no_fault sample_store_def progressData_def)
  have c3: "length (filter completed ([] :: user_progress list)) = 0"
    by simp
  from getUserStats_formula [OF read1 c1] getUserStats_formula [OF read3 c3]
  show ?thesis by (simp add: numeral_2_eq_2)
qed

text \<open>
  C6: \<open>completeLesson\<close> first looks up the lesson, and the lookup always returns a result.
  When the result is not a success or carries no lesson, \<open>completeLesson\<close> returns the
  failure \<^verbatim>\<open>Lesson not found\<close> and the world is left as the lookup left it: no query on the
  progress table is sent. When the result carries a lesson, \<open>completeLesson\<close> is
  \<open>updateProgress\<close> with percentage 100 from there. On the reference store: when no lesson
  has the identifier, the result is \<^verbatim>\<open>Lesson not found\<close> and the progress table is
  unchanged, whatever the faults; when exactly one lesson has it and there is no fault,
  \<open>completeLesson\<close> is \<open>updateProgress\<close> with 100.
\<close>

theorem completeLesson_lookup_first:
  "(\<exists>lessonResult s1. getLesson db lessonId s = (Inr lessonResult, s1)) \<and>
   (getLesson db lessonId s = (Inr lessonResult, s1) \<longrightarrow>
      (\<not> success lessonResult \<or> data lessonResult = None \<longrightarrow>
         completeLesson db userId lessonId s = (Inr (failure ''Lesson not found''), s1)) \<and>
      (success lessonResult \<and> data lessonResult \<noteq> None \<longrightarrow>
         completeLesson db userId lessonId s = updateProgress db userId lessonId 100 s1)) \<and>
   (filter (\<lambda>x. lid x = lessonId) (lessons st) = [] \<longrightarrow>
      fst (completeLesson store_db userId lessonId st) = Inr (failure ''Lesson not found'') \<and>
      user_lesson_progress (snd (completeLesson store_db userId lessonId st)) =
        user_lesson_progress st) \<and>
   (filter (\<lambda>x. lid x = lessonId) (lessons st) = [x] \<and> faults st = [] \<longrightarrow>
      completeLesson store_db userId lessonId st = updateProgress store_db userId lessonId 100 st)"
proof -
  have first: "\<exists>lessonResult s1. getLesson db lessonId s = (Inr lessonResult, s1)"
    by (rule getLesson_returns)
  have general: "getLesson db lessonId s = (Inr lessonResult, s1) \<longrightarrow>
      (\<not> success lessonResult \<or> data lessonResult = None \<longrightarrow>
         completeLesson db userId lessonId s = (Inr (failure ''Lesson not found''), s1)) \<and>
      (success lessonResult \<and> data lessonResult \<noteq> None \<longrightarrow>
         completeLesson db userId lessonId s = updateProgress db userId lessonId 100 s1)"
    using completeLesson_cases [of db lessonId s lessonResult s1 userId] by auto
  have absent: "fst (completeLesson store_db userId lessonId st) = Inr (failure ''Lesson not found'') \<and>
      user_lesson_progress (snd (completeLesson store_db userId lessonId st)) =
        user_lesson_progress st"
    if none: "filter (\<lambda>x. lid x = lessonId) (lessons st) = []"
  proof -
    obtain r st1 where look: "getLesson store_db lessonId st = (Inr r, st1)"
      using getLesson_returns [of store_db lessonId st] by auto
    from getLesson_absent [OF none look]
    have "\<not> success r" and "user_lesson_progress st1 = user_lesson_progress st"
      by simp_all
    with completeLesson_cases [OF look, of userId] show ?thesis
      by simp
  qed
  have present: "completeLesson store_db userId lessonId st =
      updateProgress store_db userId lessonId 100 st"
    if "filter (\<lambda>x. lid x = lessonId) (lessons st) = [x] \<and> faults st = []"
  proof -
    from that have "getLesson store_db lessonId st = (Inr (succeed (Some x)), st)"
      by (simp add: getLesson_present)
    from completeLesson_cases [OF this, of userId] show ?thesis
      by (simp add: succeed_def)
  qed
  from first general absent present show ?thesis
    by blast
qed

theorem completeLesson_lookup_first_witness:
  "filter (\<lambda>x. lid x = ''l7'') (lessons sample_store) = [] \<and>
   fst (completeLesson store_db ''u1'' ''l7'' sample_store) = Inr (failure ''Lesson not found'') \<and>
   user_lesson_progress (snd (completeLesson store_db ''u1'' ''l7'' sample_store)) =
     user_lesson_progress sample_store \<and>
   completeLesson store_db ''u1'' ''l1'' sample_store =
     updateProgress store_db ''u1'' ''l1'' 100 sample_store \<and>
   fst (completeLesson store_db ''u1'' ''l1'' sample_store) =
     Inr (succeed (Some \<lparr>user_id = ''u1'', lesson_id = ''l1'', progress = 100, completed = True,
                          completed_at = Some (clock sample_store)\<rparr>))"
proof -
  have none: "filter (\<lambda>x. lid x = ''l7'') (lessons sample_store) = []"
    by (simp add: sample_store_def)
  have one: "filter (\<lambda>x. lid x = ''l1'') (lessons sample_store) = [hd (lessons sample_store)] \<and>
      faults sample_store = []"
    by (simp add: sample_store_def)
  have run: "fst (updateProgress store_db ''u1'' ''l1'' 100 sample_store) =
     Inr (succeed (Some \<lparr>user_id = ''u1'', lesson_id = ''l1'', progress = 100, completed = True,
                          completed_at = Some (clock sample_store)\<rparr>))"
    by code_simp
  from completeLesson_lookup_first [of store_db "''l7''" sample_store _ _ "''u1''" sample_store] none
  have a: "fst (completeLesson store_db ''u1'' ''l7'' sample_store) = Inr (failure ''Lesson not found'') \<and>
   user_lesson_progress (snd (completeLesson store_db ''u1'' ''l7'' sample_store)) =
     user_lesson_progress sample_store"
    by blast
  from completeLesson_lookup_first [of store_db "''l1''" sample_store _ _ "''u1''" sample_store
      "hd (lessons sample_store)"] one
  have b: "completeLesson store_db ''u1'' ''l1'' sample_store =
     updateProgress store_db ''u1'' ''l1'' 100 sample_store"
    by blast
  from none a b run show ?thesis
    by simp
qed

section \<open>Claims about \<open>checkMultipleDomains\<close>\<close>



text \<open>
  C10: for every list of labels, every extension and every behaviour of the network,
  \<open>checkMultipleDomains\<close> returns a success result, without an error, whose data list has
  exactly one entry for each input label, and every entry is a result object.
\<close>

theorem checkMultipleDomains_succeeds:
  "\<exists>r s' results. checkMultipleDomains net domains ext s = (Inr r, s') \<and>
     success r \<and> error r = None \<and> data r = Some results \<and>
     length results = length domains \<and> list_all (\<lambda>x. x \<noteq> None) results"
proof -
  obtain outcomes s' where run:
    "allSettled (map (\<lambda>d. searchDomain net d ext) domains) s = (outcomes, s')"
    by (cases "allSettled (map (\<lambda>d. searchDomain net d ext) domains) s")
  have "length outcomes = length domains"
    using allSettled_length_eq [OF run] by simp
  then have "length (collect ext domains outcomes) = length domains"
    by (rule collect_length)
  moreover note collect_defined [OF run]
  moreover have "checkMultipleDomains net domains ext s =
      (Inr (succeed (Some (collect ext domains outcomes))), s')"
    using run by (simp add: checkMultipleDomains_flat)
  ultimately show ?thesis
    by (simp add: succeed_def)
qed

section \<open>Properties of the result shape\<close>













section \<open>Claims about the uniform result shape\<close>




end
